theory Spec2Isabelle
  imports Main
begin

section \<open>Values, objects and the store\<close>

text \<open>
  A shallow embedding of \<^verbatim>\<open>src/index.ts\<close> and \<^verbatim>\<open>src/registry.ts\<close>.

  Messages are JavaScript objects: they are shared by reference (the outbound queue holds
  references), \<^verbatim>\<open>send\<close> assigns to their \<^verbatim>\<open>channel\<close> field and \<^verbatim>\<open>onData\<close>
  reassigns a prototype. So objects live in an explicit store, addressed by \<open>addr\<close>.

  \<^item> \<open>tag\<close> is the TypeScript type \<^verbatim>\<open>string | undefined\<close> of the field \<^verbatim>\<open>channel\<close>.
  \<^item> An object has an optional own property \<^verbatim>\<open>channel\<close> (\<open>None\<close>: no own property, the
    read falls through to the prototype), a prototype (\<open>Some c\<close>: the prototype of class
    \<open>c\<close>; \<open>None\<close>: any prototype that carries no \<^verbatim>\<open>channel\<close>, such as
    \<^verbatim>\<open>Object.prototype\<close>) and its remaining fields.
  \<^item> \<open>protos st c\<close> is the value of \<^verbatim>\<open>c.prototype.channel\<close>. Class prototypes are
    kept flat: every class has its own slot.
  \<^item> Objects are extensible and their fields writable, so the two assignments succeed.
\<close>

type_synonym addr = nat
type_synonym cls = nat
type_synonym cb = nat

datatype tag = Undefined | Chan string

datatype anyval = AString string | ANonString

datatype exn = Thrown nat | NotRegisteredError | EncodeError exn | TypeCheckError | TypeError

record 'p obj =
  own_channel :: "tag option"
  proto :: "cls option"
  payload :: 'p

record 'p store =
  objs :: "addr \<Rightarrow> 'p obj"
  protos :: "cls \<Rightarrow> tag"

text \<open>\<^verbatim>\<open>Object.getPrototypeOf(data).channel\<close>\<close>

definition proto_channel :: "'p store \<Rightarrow> addr \<Rightarrow> tag" where
  "proto_channel st a = (case proto (objs st a) of None \<Rightarrow> Undefined | Some c \<Rightarrow> protos st c)"

text \<open>\<^verbatim>\<open>data.channel\<close>: the own property when there is one, the prototype's otherwise.\<close>

definition read_channel :: "'p store \<Rightarrow> addr \<Rightarrow> tag" where
  "read_channel st a =
     (case own_channel (objs st a) of Some t \<Rightarrow> t | None \<Rightarrow> proto_channel st a)"

text \<open>\<^verbatim>\<open>data.channel = Object.getPrototypeOf(data).channel\<close>\<close>

definition stamp :: "'p store \<Rightarrow> addr \<Rightarrow> 'p store" where
  "stamp st a =
     st\<lparr>objs := (objs st)(a := (objs st a)\<lparr>own_channel := Some (proto_channel st a)\<rparr>)\<rparr>"

text \<open>\<^verbatim>\<open>Object.setPrototypeOf(o, classType.prototype)\<close>\<close>

definition setPrototypeOf :: "'p store \<Rightarrow> addr \<Rightarrow> cls \<Rightarrow> 'p store" where
  "setPrototypeOf st a c = st\<lparr>objs := (objs st)(a := (objs st a)\<lparr>proto := Some c\<rparr>)\<rparr>"

text \<open>
  \<^verbatim>\<open>Sendable.channel()\<close>, the static method: \<^verbatim>\<open>this.prototype.channel as string\<close>.
  The cast does nothing at run time, so the result is a \<open>tag\<close>.
\<close>

definition Sendable_channel :: "'p store \<Rightarrow> cls \<Rightarrow> tag" where
  "Sendable_channel st c = protos st c"

text \<open>
  \<^verbatim>\<open>new C(...)\<close> for a class \<open>C\<close> extending \<^verbatim>\<open>Sendable\<close>: the field \<^verbatim>\<open>channel\<close> is
  declared without an initialiser and no constructor assigns it (the decorator is there
  so that it need not be overridden), so the new object has no own \<^verbatim>\<open>channel\<close>, as
  TypeScript compiles such a declaration when fields are not emitted as definitions; its
  prototype is \<open>C\<close>'s. The object is written at the address given.
\<close>

definition new_instance :: "'p store \<Rightarrow> addr \<Rightarrow> cls \<Rightarrow> 'p \<Rightarrow> 'p store" where
  "new_instance st a c p =
     st\<lparr>objs := (objs st)(a := \<lparr>own_channel = None, proto = Some c, payload = p\<rparr>)\<rparr>"

section \<open>The registry (\<^verbatim>\<open>src/registry.ts\<close>)\<close>

record ('v, 'cd) registry_t =
  entries :: "tag \<rightharpoonup> (cls \<times> 'v \<times> 'cd)"

definition register ::
  "('v, 'cd) registry_t \<Rightarrow> 'p store \<Rightarrow> cls \<Rightarrow> 'v \<Rightarrow> 'cd \<Rightarrow> ('v, 'cd) registry_t" where
  "register reg st classToRegister strats customData =
     (let channel = Sendable_channel st classToRegister
      in reg\<lparr>entries := (entries reg)(channel \<mapsto> (classToRegister, strats, customData))\<rparr>)"

text \<open>\<^verbatim>\<open>registry.entries.has(k)\<close>\<close>

definition entries_has :: "('v, 'cd) registry_t \<Rightarrow> tag \<Rightarrow> bool" where
  "entries_has reg k = (case entries reg k of None \<Rightarrow> False | Some _ \<Rightarrow> True)"

text \<open>
  The decorator \<^verbatim>\<open>MakeSendable(registry, channel, strategy, ...customData)\<close> applied to a
  constructor: it assigns \<^verbatim>\<open>constructor.prototype.channel\<close>, then registers the class.
\<close>

definition MakeSendable ::
  "('v, 'cd) registry_t \<Rightarrow> string \<Rightarrow> 'v \<Rightarrow> 'cd \<Rightarrow> cls \<Rightarrow> 'p store
     \<Rightarrow> ('v, 'cd) registry_t \<times> 'p store" where
  "MakeSendable reg channel strategy customData constructor st =
     (let st' = st\<lparr>protos := (protos st)(constructor := Chan channel)\<rparr>
      in (register reg st' constructor strategy customData, st'))"

section \<open>The listener manager\<close>

text \<open>
  What a manager does to the outside is recorded in a trace: every call of
  \<^verbatim>\<open>transmit\<close>, of \<^verbatim>\<open>encode\<close> (with the object as it is at the call), of an awaiter's
  \<^verbatim>\<open>resolve\<close>, of a listener callback, and of \<^verbatim>\<open>console.warn\<close>.
\<close>

datatype drop_reason =
  DecoderThrew exn | ChannelNotString | NotInRegistry string | FinalizeFailed exn

datatype ('io, 'p) event =
  Transmit 'io
  | EncodeCall "'p obj"
  | Resolved nat addr
  | Invoked cb addr
  | Warned drop_reason

record awaiter =
  channel :: tag
  predicate :: nat
  resolve :: nat

text \<open>
  The fields of \<^verbatim>\<open>ListenerManagerImplementations\<close> and \<^verbatim>\<open>AbstractListenerManager\<close>
  (\<open>registry\<close>, \<open>listeners\<close>, \<open>awaiters\<close>, \<open>queue\<close>, \<open>isReady\<close>), together with the
  store and the trace.

  A \<^verbatim>\<open>Set\<close> of callbacks is the list of its entries in insertion order, as the
  language defines it: \<^verbatim>\<open>add\<close> appends an entry unless the value is there,
  \<^verbatim>\<open>delete\<close> empties the entry of the value (\<open>None\<close>) and leaves its position, so that
  an iteration in progress keeps its place. Callbacks and predicates are named by
  numbers: a \<^verbatim>\<open>Set\<close> compares functions by identity, and what a function does is
  given by the environment below.
\<close>

record ('io, 'p, 'v, 'cd) world =
  registry :: "('v, 'cd) registry_t"
  listeners :: "tag \<rightharpoonup> cb option list"
  awaiters :: "awaiter list"
  queue :: "addr list"
  isReady :: bool
  store :: "'p store"
  trace :: "('io, 'p) event list"

text \<open>
  The code supplied from outside.

  \<^item> The abstract methods \<^verbatim>\<open>encode\<close>, \<^verbatim>\<open>decode\<close>, \<^verbatim>\<open>finalize\<close> and \<^verbatim>\<open>transmit\<close>
    of the implementing class. Each of them may throw (\<open>Inl\<close>, or \<open>Some e\<close> for
    \<^verbatim>\<open>transmit\<close>, which returns nothing). \<^verbatim>\<open>decode\<close> and \<^verbatim>\<open>finalize\<close> may create or
    change objects, so they return a store; the intermediate value is an object, as
    \<^verbatim>\<open>Object.setPrototypeOf\<close> expects.
  \<^item> What a listener callback and an awaiter's predicate do when they are called. They
    are functions of the program that uses the manager, so they may call the manager's
    methods (\<^verbatim>\<open>listen\<close>, \<^verbatim>\<open>stopListening\<close>, \<^verbatim>\<open>awaitMessage\<close>, \<^verbatim>\<open>send\<close>) and
    change objects: each takes the world and returns the world it leaves, with its
    exception if it throws, or its result.

  \<open>to_string\<close> is the conversion of an object to a string that a template literal
  \<^verbatim>\<open>`${o}`\<close> performs. JavaScript calls the object's \<^verbatim>\<open>toString\<close>, then its
  \<^verbatim>\<open>valueOf\<close>, so the outcome depends on the object's properties: \<open>None\<close> when a
  string results, \<open>Some e\<close> when the conversion throws (a \<^verbatim>\<open>TypeError\<close> when neither
  method yields a primitive, as for an object whose own property \<^verbatim>\<open>toString\<close> is not a
  function). \<open>exn_to_string\<close> and \<open>io_to_string\<close> are the same conversion for a caught
  exception and for the raw data, which the diagnostics print too.
\<close>

record ('io, 'p, 'v, 'cd) env =
  encode :: "'p obj \<Rightarrow> exn + 'io"
  decode :: "'io \<Rightarrow> 'p store \<Rightarrow> exn + (anyval \<times> addr \<times> 'p store)"
  finalize :: "addr \<Rightarrow> 'v \<Rightarrow> 'cd \<Rightarrow> 'p store \<Rightarrow> exn + (addr \<times> 'p store)"
  transmit :: "'io \<Rightarrow> exn option"
  callback :: "cb \<Rightarrow> ('io, 'p, 'v, 'cd) world \<Rightarrow> addr \<Rightarrow> ('io, 'p, 'v, 'cd) world \<times> exn option"
  run_predicate ::
    "nat \<Rightarrow> ('io, 'p, 'v, 'cd) world \<Rightarrow> addr \<Rightarrow> ('io, 'p, 'v, 'cd) world \<times> (exn + bool)"
  to_string :: "'p obj \<Rightarrow> exn option"
  exn_to_string :: "exn \<Rightarrow> exn option"
  io_to_string :: "'io \<Rightarrow> exn option"

definition new_manager :: "('v, 'cd) registry_t \<Rightarrow> 'p store \<Rightarrow> ('io, 'p, 'v, 'cd) world" where
  "new_manager reg st =
     \<lparr>registry = reg, listeners = Map.empty, awaiters = [], queue = [], isReady = False,
      store = st, trace = []\<rparr>"

subsection \<open>\<^verbatim>\<open>listen\<close>, \<^verbatim>\<open>stopListening\<close>, \<^verbatim>\<open>awaitMessage\<close>\<close>

definition set_add :: "cb option list \<Rightarrow> cb \<Rightarrow> cb option list" where
  "set_add cs c = (if Some c \<in> set cs then cs else cs @ [Some c])"

definition set_delete :: "cb option list \<Rightarrow> cb \<Rightarrow> cb option list" where
  "set_delete cs c = map (\<lambda>x. if x = Some c then None else x) cs"

text \<open>The values of a \<^verbatim>\<open>Set\<close>, in insertion order.\<close>

fun set_elems :: "cb option list \<Rightarrow> cb list" where
  "set_elems [] = []"
| "set_elems (None # cs) = set_elems cs"
| "set_elems (Some c # cs) = c # set_elems cs"

definition listen :: "('io, 'p, 'v, 'cd) world \<Rightarrow> cls \<Rightarrow> cb \<Rightarrow> ('io, 'p, 'v, 'cd) world" where
  "listen w channelClass c =
     (let ch = Sendable_channel (store w) channelClass;
          cs = (case listeners w ch of None \<Rightarrow> [] | Some cs \<Rightarrow> cs)
      in w\<lparr>listeners := (listeners w)(ch \<mapsto> set_add cs c)\<rparr>)"

definition stopListening ::
  "('io, 'p, 'v, 'cd) world \<Rightarrow> cls \<Rightarrow> cb \<Rightarrow> ('io, 'p, 'v, 'cd) world" where
  "stopListening w channelClass c =
     (let ch = Sendable_channel (store w) channelClass
      in case listeners w ch of
           None \<Rightarrow> w
         | Some cs \<Rightarrow> w\<lparr>listeners := (listeners w)(ch \<mapsto> set_delete cs c)\<rparr>)"

text \<open>
  The promise returned by \<^verbatim>\<open>awaitMessage\<close> is named by the number \<open>r\<close>, the predicate
  by the number \<open>p\<close>.
\<close>

definition awaitMessage ::
  "('io, 'p, 'v, 'cd) world \<Rightarrow> cls \<Rightarrow> nat \<Rightarrow> nat \<Rightarrow> ('io, 'p, 'v, 'cd) world" where
  "awaitMessage w channelClass p r =
     w\<lparr>awaiters := awaiters w @
         [\<lparr>channel = Sendable_channel (store w) channelClass, predicate = p, resolve = r\<rparr>]\<rparr>"

subsection \<open>\<^verbatim>\<open>notifyListeners\<close>\<close>

text \<open>
  The \<^verbatim>\<open>for\<close> loop over \<^verbatim>\<open>this.awaiters\<close>, from index \<open>i\<close>. The array and the message
  are read again at every turn, so the loop sees what a predicate has done to them;
  \<^verbatim>\<open>&&\<close> does not call the predicate of an awaiter on another channel. On a match
  the awaiter read at the start of the turn is resolved, and \<^verbatim>\<open>splice(i, 1)\<close> removes
  what is at index \<open>i\<close> then (nothing when \<open>i\<close> is out of range). A predicate that keeps
  adding awaiters keeps the loop running: the result \<open>None\<close> is a loop that does not end.
\<close>

datatype scan_result = Matched | NoMatch | PredicateThrew exn

partial_function (option) scan_awaiters ::
  "('io, 'p, 'v, 'cd) env \<Rightarrow> addr \<Rightarrow> nat \<Rightarrow> ('io, 'p, 'v, 'cd) world
     \<Rightarrow> (('io, 'p, 'v, 'cd) world \<times> scan_result) option" where
  "scan_awaiters E d i w =
     (if i < length (awaiters w)
      then (if channel (awaiters w ! i) = read_channel (store w) d
            then (case run_predicate E (predicate (awaiters w ! i)) w d of
                    (w1, Inl e) \<Rightarrow> Some (w1, PredicateThrew e)
                  | (w1, Inr b) \<Rightarrow>
                      if b
                      then Some (w1\<lparr>trace := trace w1 @ [Resolved (resolve (awaiters w ! i)) d],
                                    awaiters := take i (awaiters w1) @
                                                drop (Suc i) (awaiters w1)\<rparr>,
                                 Matched)
                      else scan_awaiters E d (Suc i) w1)
            else scan_awaiters E d (Suc i) w)
      else Some (w, NoMatch))"

text \<open>
  \<^verbatim>\<open>forEach(callback => callback(data))\<close> on the \<^verbatim>\<open>Set\<close> of channel \<open>ch\<close>, from entry
  \<open>i\<close>. The iteration is over the set as it is at every step: an entry emptied before
  its turn is skipped, an entry added meanwhile is visited. The manager's methods never
  replace the set of a channel; should a callback remove it from the table, the
  iteration ends. Callbacks that keep adding callbacks keep it running (\<open>None\<close>).
\<close>

partial_function (option) forEach_callback ::
  "('io, 'p, 'v, 'cd) env \<Rightarrow> tag \<Rightarrow> addr \<Rightarrow> nat \<Rightarrow> ('io, 'p, 'v, 'cd) world
     \<Rightarrow> (('io, 'p, 'v, 'cd) world \<times> exn option) option" where
  "forEach_callback E ch d i w =
     (case listeners w ch of
        None \<Rightarrow> Some (w, None)
      | Some cs \<Rightarrow>
          if i < length cs
          then (case cs ! i of
                  None \<Rightarrow> forEach_callback E ch d (Suc i) w
                | Some c \<Rightarrow>
                    (case callback E c (w\<lparr>trace := trace w @ [Invoked c d]\<rparr>) d of
                       (w1, Some e) \<Rightarrow> Some (w1, Some e)
                     | (w1, None) \<Rightarrow> forEach_callback E ch d (Suc i) w1))
          else Some (w, None))"

definition notifyListeners ::
  "('io, 'p, 'v, 'cd) env \<Rightarrow> ('io, 'p, 'v, 'cd) world \<Rightarrow> addr
     \<Rightarrow> (('io, 'p, 'v, 'cd) world \<times> exn option) option" where
  "notifyListeners E w d =
     (case scan_awaiters E d 0 w of
        None \<Rightarrow> None
      | Some (w1, PredicateThrew e) \<Rightarrow> Some (w1, Some e)
      | Some (w1, Matched) \<Rightarrow> Some (w1, None)
      | Some (w1, NoMatch) \<Rightarrow> forEach_callback E (read_channel (store w1) d) d 0 w1)"

subsection \<open>\<^verbatim>\<open>onData\<close>\<close>

definition warn ::
  "('io, 'p, 'v, 'cd) world \<Rightarrow> drop_reason \<Rightarrow> ('io, 'p, 'v, 'cd) world" where
  "warn w r = w\<lparr>trace := trace w @ [Warned r]\<rparr>"

text \<open>
  \<^verbatim>\<open>console.warn(`... ${e} ... ${intermediate} ... ${data}`); return\<close>: the message is
  built first, by converting the interpolated values from left to right; the call is
  outside the \<^verbatim>\<open>try\<close> blocks (or inside a \<^verbatim>\<open>catch\<close> block), so an exception of a
  conversion leaves \<^verbatim>\<open>onData\<close>.
\<close>

fun first_exn :: "exn option list \<Rightarrow> exn option" where
  "first_exn [] = None"
| "first_exn (None # cs) = first_exn cs"
| "first_exn (Some e # cs) = Some e"

definition warn_dropped ::
  "('io, 'p, 'v, 'cd) world \<Rightarrow> exn option list \<Rightarrow> drop_reason
     \<Rightarrow> ('io, 'p, 'v, 'cd) world \<times> exn option" where
  "warn_dropped w conversions r =
     (case first_exn conversions of
        Some e \<Rightarrow> (w, Some e)
      | None \<Rightarrow> (warn w r, None))"

text \<open>
  The result \<open>None\<close> of \<open>onData\<close> is the notification that does not end; \<open>Some (w', x)\<close>
  is the world \<open>onData\<close> leaves, with the exception it throws, if any.
\<close>

definition onData ::
  "('io, 'p, 'v, 'cd) env \<Rightarrow> ('io, 'p, 'v, 'cd) world \<Rightarrow> 'io
     \<Rightarrow> (('io, 'p, 'v, 'cd) world \<times> exn option) option" where
  "onData E w data =
     (case decode E data (store w) of
        Inl e \<Rightarrow>
          Some (warn_dropped w [exn_to_string E e, io_to_string E data] (DecoderThrew e))
      | Inr (ch, intermediate, st1) \<Rightarrow>
          (case ch of
             ANonString \<Rightarrow>
               Some (warn_dropped (w\<lparr>store := st1\<rparr>)
                      [to_string E (objs st1 intermediate), io_to_string E data]
                      ChannelNotString)
           | AString c \<Rightarrow>
               (case entries (registry w) (Chan c) of
                  None \<Rightarrow>
                    Some (warn_dropped (w\<lparr>store := st1\<rparr>)
                           [to_string E (objs st1 intermediate), io_to_string E data]
                           (NotInRegistry c))
                | Some (classType, strats, customData) \<Rightarrow>
                    (case finalize E intermediate strats customData st1 of
                       Inl e \<Rightarrow>
                         Some (warn_dropped (w\<lparr>store := st1\<rparr>)
                                [exn_to_string E e, to_string E (objs st1 intermediate),
                                 io_to_string E data]
                                (FinalizeFailed e))
                     | Inr (decoded, st2) \<Rightarrow>
                         notifyListeners E
                           (w\<lparr>store := setPrototypeOf st2 intermediate classType\<rparr>)
                           decoded))))"

text \<open>
  \<^verbatim>\<open>JSONListenerManager.finalize\<close>: the validator is a function on the data; the data
  itself is returned when the validator accepts it.
\<close>

definition json_finalize ::
  "addr \<Rightarrow> ('p store \<Rightarrow> addr \<Rightarrow> exn + bool) \<Rightarrow> 'cd \<Rightarrow> 'p store \<Rightarrow> exn + (addr \<times> 'p store)" where
  "json_finalize data typeCheckingLayers customData st =
     (case typeCheckingLayers st data of
        Inl e \<Rightarrow> Inl e
      | Inr False \<Rightarrow> Inl TypeCheckError
      | Inr True \<Rightarrow> Inr (data, st))"

subsection \<open>\<^verbatim>\<open>send\<close> and \<^verbatim>\<open>ready\<close>\<close>

text \<open>
  \<open>EncodeError e\<close> is what the \<^verbatim>\<open>catch\<close> block of \<^verbatim>\<open>send\<close> throws when
  \<^verbatim>\<open>encode\<close> has thrown \<open>e\<close>. \<^verbatim>\<open>transmit\<close> is called outside the \<^verbatim>\<open>try\<close>
  block: what it throws leaves \<^verbatim>\<open>send\<close>.
\<close>

definition send ::
  "('io, 'p, 'v, 'cd) env \<Rightarrow> ('io, 'p, 'v, 'cd) world \<Rightarrow> addr
     \<Rightarrow> ('io, 'p, 'v, 'cd) world \<times> exn option" where
  "send E w data =
     (if \<not> entries_has (registry w) (read_channel (store w) data)
      then (w, Some NotRegisteredError)
      else if \<not> isReady w
      then (w\<lparr>queue := queue w @ [data]\<rparr>, None)
      else
        (let st' = stamp (store w) data;
             w1 = w\<lparr>store := st', trace := trace w @ [EncodeCall (objs st' data)]\<rparr>
         in case encode E (objs st' data) of
              Inl e \<Rightarrow> (w1, Some (EncodeError e))
            | Inr encoded \<Rightarrow>
                (w1\<lparr>trace := trace w1 @ [Transmit encoded]\<rparr>, transmit E encoded)))"

text \<open>\<^verbatim>\<open>this.queue.forEach(v => this.send(v))\<close>: an exception ends the iteration.\<close>

fun forEach_send ::
  "('io, 'p, 'v, 'cd) env \<Rightarrow> ('io, 'p, 'v, 'cd) world \<Rightarrow> addr list
     \<Rightarrow> ('io, 'p, 'v, 'cd) world \<times> exn option" where
  "forEach_send E w [] = (w, None)"
| "forEach_send E w (v # vs) =
     (case send E w v of
        (w', Some e) \<Rightarrow> (w', Some e)
      | (w', None) \<Rightarrow> forEach_send E w' vs)"

definition ready ::
  "('io, 'p, 'v, 'cd) env \<Rightarrow> ('io, 'p, 'v, 'cd) world
     \<Rightarrow> ('io, 'p, 'v, 'cd) world \<times> exn option" where
  "ready E w =
     (let w1 = w\<lparr>isReady := True\<rparr>
      in case forEach_send E w1 (queue w1) of
           (w2, Some e) \<Rightarrow> (w2, Some e)
         | (w2, None) \<Rightarrow> (w2\<lparr>queue := []\<rparr>, None))"

text \<open>A sequence of calls of \<^verbatim>\<open>send\<close>, stopped by the first that throws.\<close>

fun sends ::
  "('io, 'p, 'v, 'cd) env \<Rightarrow> ('io, 'p, 'v, 'cd) world \<Rightarrow> addr list
     \<Rightarrow> ('io, 'p, 'v, 'cd) world \<times> exn option" where
  "sends E w [] = (w, None)"
| "sends E w (m # ms) =
     (case send E w m of
        (w', Some e) \<Rightarrow> (w', Some e)
      | (w', None) \<Rightarrow> sends E w' ms)"

text \<open>The arguments of the calls of \<^verbatim>\<open>transmit\<close> in a trace, in order.\<close>

fun transmitted :: "('io, 'p) event list \<Rightarrow> 'io list" where
  "transmitted [] = []"
| "transmitted (Transmit x # evs) = x # transmitted evs"
| "transmitted (_ # evs) = transmitted evs"

section \<open>Observations used by the properties\<close>

text \<open>
  A message is dropped for reason \<open>r\<close>: the manager's own fields are as before, and the
  only thing that happened is the warning.
\<close>

definition dropped ::
  "('io, 'p, 'v, 'cd) world \<Rightarrow> ('io, 'p, 'v, 'cd) world \<Rightarrow> drop_reason \<Rightarrow> bool" where
  "dropped w w' r =
     (registry w' = registry w \<and> listeners w' = listeners w \<and> awaiters w' = awaiters w \<and>
      queue w' = queue w \<and> isReady w' = isReady w \<and> trace w' = trace w @ [Warned r])"

text \<open>
  An awaiter rejects a message when it is on another channel, or when its predicate
  returns false and leaves the world as it is.
\<close>

definition rejects ::
  "('io, 'p, 'v, 'cd) env \<Rightarrow> ('io, 'p, 'v, 'cd) world \<Rightarrow> addr \<Rightarrow> awaiter \<Rightarrow> bool" where
  "rejects E w d a =
     (channel a \<noteq> read_channel (store w) d \<or>
      run_predicate E (predicate a) w d = (w, Inr False))"


text \<open>
  A callback is quiet in \<open>w\<close>: called in \<open>w\<close>, whatever the trace, it returns and
  changes nothing.
\<close>

definition quiet ::
  "('io, 'p, 'v, 'cd) env \<Rightarrow> ('io, 'p, 'v, 'cd) world \<Rightarrow> addr \<Rightarrow> cb \<Rightarrow> bool" where
  "quiet E w d c = (\<forall>t. callback E c (w\<lparr>trace := t\<rparr>) d = (w\<lparr>trace := t\<rparr>, None))"


text \<open>
  The message as \<^verbatim>\<open>encode\<close> sees it: stamped with the channel of its prototype.
\<close>

definition as_sent :: "'p store \<Rightarrow> addr \<Rightarrow> 'p obj" where
  "as_sent st m = (objs st m)\<lparr>own_channel := Some (proto_channel st m)\<rparr>"

text \<open>The events that \<open>w'\<close> has after those of \<open>w\<close>.\<close>

definition emitted ::
  "('io, 'p, 'v, 'cd) world \<Rightarrow> ('io, 'p, 'v, 'cd) world \<Rightarrow> ('io, 'p) event list" where
  "emitted w w' = drop (length (trace w)) (trace w')"

section \<open>A concrete manager\<close>

text \<open>
  Two classes are registered, \<open>0\<close> on channel \<open>ping\<close> and \<open>1\<close> on channel \<open>pong\<close>, with a
  validator that accepts the objects whose payload is not negative. The wire format is the
  pair of the own channel and the payload; the encoder throws on a negative payload, the
  decoder throws on the payload 99 and builds the decoded object at address 10;
  \<^verbatim>\<open>transmit\<close> returns. The payload -13 stands for an object that cannot be converted
  to a string (what \<^verbatim>\<open>JSON.parse\<close> returns for \<^verbatim>\<open>{"toString":1}\<close>); exceptions and raw
  data convert.

  Callback 9 throws; callback 5 calls \<^verbatim>\<open>stopListening\<close> for callback 4 on class 1;
  every other callback returns and changes nothing. Predicate 0 accepts the payload 5,
  predicate 1 throws, every other predicate accepts the payloads that are not negative;
  none changes anything.

  Objects: 7 is an instance of class 0; 2, 3 and 6 are instances of class 1 (payloads 5,
  -1 and 7); 4 is a plain object tagged with the unregistered channel \<open>nope\<close>; 5 is an
  instance of class 1 that carries the stale own tag \<open>ping\<close>; 8 is a plain object tagged
  \<open>ping\<close> (the literal \<^verbatim>\<open>{channel: "ping"}\<close>).
\<close>

type_synonym ex_io = "tag option \<times> int"
type_synonym ex_validator = "int store \<Rightarrow> addr \<Rightarrow> exn + bool"
type_synonym ex_world = "(ex_io, int, ex_validator, unit) world"

definition ex_accept :: ex_validator where
  "ex_accept st a = Inr (0 \<le> payload (objs st a))"

definition ex_store0 :: "int store" where
  "ex_store0 = \<lparr>objs = (\<lambda>_. \<lparr>own_channel = None, proto = None, payload = 0\<rparr>),
                protos = (\<lambda>_. Undefined)\<rparr>"

definition ex_setup :: "(ex_validator, unit) registry_t \<times> int store" where
  "ex_setup =
     (case MakeSendable \<lparr>entries = Map.empty\<rparr> ''ping'' ex_accept () 0 ex_store0 of
        (r1, s1) \<Rightarrow> MakeSendable r1 ''pong'' ex_accept () 1 s1)"

definition ex_store :: "int store" where
  "ex_store =
     (let s1 = new_instance (snd ex_setup) 7 0 0;
          s2 = new_instance s1 2 1 5;
          s3 = new_instance (new_instance s2 3 1 (- 1)) 6 1 7;
          s4 = s3\<lparr>objs := (objs s3)(4 := \<lparr>own_channel = Some (Chan ''nope''), proto = None,
                                          payload = 0\<rparr>)\<rparr>;
          s5 = s4\<lparr>objs := (objs s4)(5 := \<lparr>own_channel = Some (Chan ''ping''), proto = Some 1,
                                          payload = 8\<rparr>)\<rparr>
      in s5\<lparr>objs := (objs s5)(8 := \<lparr>own_channel = Some (Chan ''ping''), proto = None,
                                     payload = 1\<rparr>)\<rparr>)"

definition ex_encode :: "int obj \<Rightarrow> exn + ex_io" where
  "ex_encode ob = (if payload ob < 0 then Inl (Thrown 1) else Inr (own_channel ob, payload ob))"

definition ex_decode :: "ex_io \<Rightarrow> int store \<Rightarrow> exn + (anyval \<times> addr \<times> int store)" where
  "ex_decode data st =
     (if snd data = 99 then Inl (Thrown 2)
      else Inr ((case fst data of Some (Chan c) \<Rightarrow> AString c | _ \<Rightarrow> ANonString), 10,
                st\<lparr>objs := (objs st)(10 := \<lparr>own_channel = fst data, proto = None,
                                             payload = snd data\<rparr>)\<rparr>))"

definition ex_callback :: "cb \<Rightarrow> ex_world \<Rightarrow> addr \<Rightarrow> ex_world \<times> exn option" where
  "ex_callback c w d =
     (if c = 9 then (w, Some (Thrown 9))
      else if c = 5 then (stopListening w 1 4, None)
      else (w, None))"

definition ex_predicate :: "nat \<Rightarrow> ex_world \<Rightarrow> addr \<Rightarrow> ex_world \<times> (exn + bool)" where
  "ex_predicate p w d =
     (if p = 0 then (w, Inr (payload (objs (store w) d) = 5))
      else if p = 1 then (w, Inl (Thrown 5))
      else (w, Inr (0 \<le> payload (objs (store w) d))))"

definition ex_env :: "(ex_io, int, ex_validator, unit) env" where
  "ex_env = \<lparr>encode = ex_encode, decode = ex_decode, finalize = json_finalize,
             transmit = (\<lambda>x. None), callback = ex_callback, run_predicate = ex_predicate,
             to_string = (\<lambda>ob. if payload ob = - 13 then Some TypeError else None),
             exn_to_string = (\<lambda>e. None), io_to_string = (\<lambda>x. None)\<rparr>"

definition ex_manager :: ex_world where
  "ex_manager = new_manager (fst ex_setup) ex_store"




text \<open>
  Managers for the exceptions of a notification: an awaiter on class 1 whose predicate
  throws; the listeners 3, 9 and 4 on class 1, of which 9 throws. \<open>ex_decoded\<close> is the
  store after the wire value \<open>(pong, 5)\<close> has been decoded.
\<close>

definition ex_throwing_awaiter :: ex_world where
  "ex_throwing_awaiter = awaitMessage ex_manager 1 1 1"

definition ex_throwing_listener :: ex_world where
  "ex_throwing_listener = listen (listen (listen ex_manager 1 3) 1 9) 1 4"

definition ex_decoded :: "int store" where
  "ex_decoded =
     ex_store\<lparr>objs := (objs ex_store)(10 := \<lparr>own_channel = Some (Chan ''pong''), proto = None,
                                              payload = 5\<rparr>)\<rparr>"

text \<open>Listener 3 on class 1, and nothing else.\<close>

definition ex_subscribed :: ex_world where
  "ex_subscribed = listen ex_manager 1 3"

text \<open>
  Two messages are sent before the manager is ready, the second of which cannot be
  encoded; then \<^verbatim>\<open>ready\<close> is called once, and once more.
\<close>

definition ex_queued :: ex_world where
  "ex_queued = fst (sends ex_env ex_manager [2, 3])"

definition ex_once :: ex_world where
  "ex_once = fst (ready ex_env ex_queued)"

definition ex_twice :: ex_world where
  "ex_twice = fst (ready ex_env ex_once)"

text \<open>
  An implementation whose \<^verbatim>\<open>finalize\<close> validates as the JSON one does and returns a
  new object (built at address 11) with the fields of the intermediate value, as
  \<^verbatim>\<open>{...data}\<close> does. \<open>ex_copied\<close> is the store after \<^verbatim>\<open>onData\<close> has decoded the wire
  value \<open>(pong, 5)\<close> with it.
\<close>

definition ex_env_copying :: "(ex_io, int, ex_validator, unit) env" where
  "ex_env_copying =
     ex_env\<lparr>finalize := (\<lambda>i v cd st.
        case json_finalize i v cd st of
          Inl e \<Rightarrow> Inl e
        | Inr (d, st') \<Rightarrow>
            Inr (11, st'\<lparr>objs := (objs st')(11 := (objs st' d)\<lparr>proto := None\<rparr>)\<rparr>))\<rparr>"

definition ex_copied :: "int store" where
  "ex_copied =
     setPrototypeOf
       (ex_decoded\<lparr>objs := (objs ex_decoded)(11 := (objs ex_decoded 10)\<lparr>proto := None\<rparr>)\<rparr>)
       10 1"

section \<open>Properties\<close>

subsection \<open>The concrete manager, evaluated\<close>

lemma ex_entries:
  "entries (fst ex_setup) = [Chan ''ping'' \<mapsto> (0, ex_accept, ()), Chan ''pong'' \<mapsto> (1, ex_accept, ())]"
  by (simp add: ex_setup_def MakeSendable_def register_def Sendable_channel_def ex_store0_def Let_def)

lemma ex_protos:
  "protos ex_store = (\<lambda>_. Undefined)(0 := Chan ''ping'', 1 := Chan ''pong'')"
  by (simp add: ex_store_def new_instance_def ex_setup_def MakeSendable_def register_def Sendable_channel_def ex_store0_def Let_def)

lemma ex_env_simps:
  "decode ex_env data st = ex_decode data st"
  "finalize ex_env = json_finalize"
  "encode ex_env = ex_encode"
  "transmit ex_env x = None"
  "callback ex_env = ex_callback"
  "run_predicate ex_env = ex_predicate"
  "to_string ex_env ob = (if payload ob = - 13 then Some TypeError else None)"
  "exn_to_string ex_env e = None"
  "io_to_string ex_env x = None"
  by (simp_all add: ex_env_def)

lemma ex_manager_simps:
  "registry ex_manager = fst ex_setup" "store ex_manager = ex_store"
  "trace ex_manager = []" "queue ex_manager = []" "isReady ex_manager = False"
  "awaiters ex_manager = []" "listeners ex_manager = Map.empty"
  by (simp_all add: ex_manager_def new_manager_def)

lemma ex_objs:
  "objs ex_store =
     (\<lambda>_. \<lparr>own_channel = None, proto = None, payload = 0\<rparr>)
       (7 := \<lparr>own_channel = None, proto = Some 0, payload = 0\<rparr>,
        2 := \<lparr>own_channel = None, proto = Some 1, payload = 5\<rparr>,
        3 := \<lparr>own_channel = None, proto = Some 1, payload = - 1\<rparr>,
        6 := \<lparr>own_channel = None, proto = Some 1, payload = 7\<rparr>,
        4 := \<lparr>own_channel = Some (Chan ''nope''), proto = None, payload = 0\<rparr>,
        5 := \<lparr>own_channel = Some (Chan ''ping''), proto = Some 1, payload = 8\<rparr>,
        8 := \<lparr>own_channel = Some (Chan ''ping''), proto = None, payload = 1\<rparr>)"
  by (simp add: ex_store_def new_instance_def ex_setup_def MakeSendable_def register_def
      Sendable_channel_def ex_store0_def Let_def)

subsection \<open>Registration\<close>

text \<open>
  C8. After \<^verbatim>\<open>MakeSendable\<close> has registered class \<open>k\<close> with channel \<open>c\<close>, the static
  \<^verbatim>\<open>channel()\<close> of \<open>k\<close> is \<open>c\<close>, a newly constructed instance of \<open>k\<close> (whatever its
  other fields, wherever it is allocated) reads \<open>c\<close> as its \<^verbatim>\<open>channel\<close>, and the
  registry maps \<open>c\<close> to the entry of \<open>k\<close>: the class, its validator and its extra data.
\<close>

theorem MakeSendable_tags_and_registers:
  "Sendable_channel (snd (MakeSendable reg c strategy customData k st)) k = Chan c \<and>
   read_channel (new_instance (snd (MakeSendable reg c strategy customData k st)) a k p) a = Chan c \<and>
   entries (fst (MakeSendable reg c strategy customData k st)) (Chan c)
     = Some (k, strategy, customData)"
  by (simp add: MakeSendable_def register_def Sendable_channel_def new_instance_def
      read_channel_def proto_channel_def Let_def)

subsection \<open>Dispatch\<close>

text \<open>
  The scan passes over the awaiters that reject the message, and the world stays as it
  is.
\<close>

lemma scan_awaiters_skip:
  "(\<forall>j. n \<le> j \<and> j < i \<longrightarrow> rejects E w d (awaiters w ! j)) \<Longrightarrow> n \<le> i
     \<Longrightarrow> i \<le> length (awaiters w)
     \<Longrightarrow> scan_awaiters E d n w = scan_awaiters E d i w"
proof (induction "i - n" arbitrary: n)
  case 0
  then show ?case by simp
next
  case (Suc k)
  then have n: "n < i" "n < length (awaiters w)" by simp_all
  with Suc.prems have "rejects E w d (awaiters w ! n)" by simp
  with n have "scan_awaiters E d n w = scan_awaiters E d (Suc n) w"
    by (subst scan_awaiters.simps) (auto simp: rejects_def)
  moreover from Suc have "scan_awaiters E d (Suc n) w = scan_awaiters E d i w"
    by (intro Suc.hyps) auto
  ultimately show ?case by simp
qed

lemma scan_awaiters_no_match:
  assumes "\<forall>a\<in>set (awaiters w). rejects E w d a"
  shows "scan_awaiters E d 0 w = Some (w, NoMatch)"
proof -
  from assms have "scan_awaiters E d 0 w = scan_awaiters E d (length (awaiters w)) w"
    by (intro scan_awaiters_skip) simp_all
  also have "\<dots> = Some (w, NoMatch)"
    by (subst scan_awaiters.simps) simp
  finally show ?thesis .
qed


lemma scan_awaiters_throws:
  assumes "i < length (awaiters w)"
    and "channel (awaiters w ! i) = read_channel (store w) d"
    and "run_predicate E (predicate (awaiters w ! i)) w d = (w1, Inl e)"
    and "\<forall>j<i. rejects E w d (awaiters w ! j)"
  shows "scan_awaiters E d 0 w = Some (w1, PredicateThrew e)"
proof -
  from assms(1,4) have "scan_awaiters E d 0 w = scan_awaiters E d i w"
    by (intro scan_awaiters_skip) simp_all
  also from assms(1-3) have "\<dots> = Some (w1, PredicateThrew e)"
    by (subst scan_awaiters.simps) simp
  finally show ?thesis .
qed

text \<open>
  The iteration over the callbacks: past the end nothing happens; quiet callbacks are
  called one after the other and only the trace grows; callbacks that behave are all
  called and the iteration ends.
\<close>

lemma set_elems_iff [simp]: "c \<in> set (set_elems cs) \<longleftrightarrow> Some c \<in> set cs"
  by (induction cs rule: set_elems.induct) auto

lemma set_elems_append [simp]: "set_elems (xs @ ys) = set_elems xs @ set_elems ys"
  by (induction xs rule: set_elems.induct) simp_all


lemma forEach_callback_quiet:
  "listeners w ch = Some (pre @ mid @ post) \<Longrightarrow> (\<forall>c. Some c \<in> set mid \<longrightarrow> quiet E w d c)
     \<Longrightarrow> forEach_callback E ch d (length pre) (w\<lparr>trace := t\<rparr>)
         = forEach_callback E ch d (length pre + length mid)
             (w\<lparr>trace := t @ map (\<lambda>c. Invoked c d) (set_elems mid)\<rparr>)"
proof (induction mid arbitrary: pre t)
  case Nil
  then show ?case by simp
next
  case (Cons x mid)
  from Cons.prems(1) have l: "listeners w ch = Some ((pre @ [x]) @ mid @ post)" by simp
  from Cons.prems(2) have q: "\<forall>c. Some c \<in> set mid \<longrightarrow> quiet E w d c" by simp
  note IH = Cons.IH [OF l q]
  show ?case
  proof (cases x)
    case None
    with Cons.prems(1) have "forEach_callback E ch d (length pre) (w\<lparr>trace := t\<rparr>)
        = forEach_callback E ch d (Suc (length pre)) (w\<lparr>trace := t\<rparr>)"
      by (subst forEach_callback.simps) (simp add: nth_append)
    with IH [of t] None show ?thesis by simp
  next
    case (Some c)
    with Cons.prems(2) have "callback E c (w\<lparr>trace := t @ [Invoked c d]\<rparr>) d
        = (w\<lparr>trace := t @ [Invoked c d]\<rparr>, None)"
      by (simp add: quiet_def)
    with Cons.prems(1) Some have "forEach_callback E ch d (length pre) (w\<lparr>trace := t\<rparr>)
        = forEach_callback E ch d (Suc (length pre)) (w\<lparr>trace := t @ [Invoked c d]\<rparr>)"
      by (subst forEach_callback.simps) (simp add: nth_append)
    with IH [of "t @ [Invoked c d]"] Some show ?thesis by simp
  qed
qed









subsection \<open>Receiving\<close>

text \<open>
  Each failure of the receive steps 1 to 4 drops the message, provided the diagnostic can
  be printed: when \<^verbatim>\<open>decode\<close> throws, when the channel is not a string, when it is
  not a key of the registry, and when \<^verbatim>\<open>finalize\<close> throws, and the values that the
  warning prints convert to strings, \<^verbatim>\<open>onData\<close> returns normally; the registry, the
  listener table, the awaiter list, the queue and the ready flag are as before; the trace
  grows by the warning only. The \<^verbatim>\<open>finalize\<close> of \<^verbatim>\<open>JSONListenerManager\<close> throws
  when the validator returns false, which is then the fourth case.
\<close>

lemma onData_drops_when_diagnostic_prints:
  "(decode E data (store w) = Inl e \<and> exn_to_string E e = None \<and> io_to_string E data = None \<longrightarrow>
      (\<exists>w'. onData E w data = Some (w', None) \<and> dropped w w' (DecoderThrew e))) \<and>
   (decode E data (store w) = Inr (ANonString, i, st1) \<and> to_string E (objs st1 i) = None \<and>
    io_to_string E data = None \<longrightarrow>
      (\<exists>w'. onData E w data = Some (w', None) \<and> dropped w w' ChannelNotString)) \<and>
   (decode E data (store w) = Inr (AString c, i, st1) \<and> entries (registry w) (Chan c) = None \<and>
    to_string E (objs st1 i) = None \<and> io_to_string E data = None \<longrightarrow>
      (\<exists>w'. onData E w data = Some (w', None) \<and> dropped w w' (NotInRegistry c))) \<and>
   (decode E data (store w) = Inr (AString c, i, st1) \<and>
    entries (registry w) (Chan c) = Some (k, v, cd) \<and> finalize E i v cd st1 = Inl e \<and>
    exn_to_string E e = None \<and> to_string E (objs st1 i) = None \<and> io_to_string E data = None \<longrightarrow>
      (\<exists>w'. onData E w data = Some (w', None) \<and> dropped w w' (FinalizeFailed e))) \<and>
   (validator st' j = Inr False \<longrightarrow> json_finalize j validator cd' st' = Inl TypeCheckError)"
  by (simp add: onData_def warn_dropped_def warn_def dropped_def json_finalize_def)

text \<open>
  C3. The claim is that every failure of the steps 1 to 4 is dropped without an
  exception, for every input. The code builds its warning from the intermediate value,
  outside the \<^verbatim>\<open>try\<close> blocks. On an input whose decoded value does not convert to a
  string, \<^verbatim>\<open>onData\<close> throws a \<^verbatim>\<open>TypeError\<close> to its caller in each of the three
  branches that print the intermediate value: the channel is not a string, the channel
  is not registered, the validator rejects the value. No warning is written.
\<close>

theorem onData_throws_when_diagnostic_fails:
  "map_option (\<lambda>r. (trace (fst r), snd r)) (onData ex_env ex_manager (None, - 13))
     = Some ([], Some TypeError) \<and>
   map_option (\<lambda>r. (trace (fst r), snd r))
       (onData ex_env ex_manager (Some (Chan ''unregistered''), - 13))
     = Some ([], Some TypeError) \<and>
   map_option (\<lambda>r. (trace (fst r), snd r)) (onData ex_env ex_manager (Some (Chan ''pong''), - 13))
     = Some ([], Some TypeError)"
  by (simp add: onData_def warn_dropped_def ex_env_simps ex_decode_def ex_manager_simps
      ex_entries json_finalize_def ex_accept_def)

text \<open>
  C9. Once a message has passed the steps 1 to 4 (it was decoded, its channel is
  registered, \<^verbatim>\<open>finalize\<close> returned), the outcome of \<^verbatim>\<open>onData\<close> is the outcome of
  the notification, and nothing catches an exception of it: when the predicate of the
  first awaiter that does not reject the message throws, and when no awaiter matches
  and a callback throws after quiet ones, \<^verbatim>\<open>onData\<close> throws that exception to its
  caller, in the world that the predicate or the callback leaves. The callbacks after
  the throwing one are not called.
\<close>

theorem onData_propagates_notification_errors:
  assumes "decode E data (store w) = Inr (AString c, i, st1)"
    and "entries (registry w) (Chan c) = Some (k, v, cd)"
    and "finalize E i v cd st1 = Inr (m, st2)"
    and "st3 = setPrototypeOf st2 i k"
  shows
    "onData E w data = notifyListeners E (w\<lparr>store := st3\<rparr>) m \<and>
     (n < length (awaiters w) \<and> channel (awaiters w ! n) = read_channel st3 m \<and>
      run_predicate E (predicate (awaiters w ! n)) (w\<lparr>store := st3\<rparr>) m = (w', Inl e) \<and>
      (\<forall>j<n. rejects E (w\<lparr>store := st3\<rparr>) m (awaiters w ! j)) \<longrightarrow>
        onData E w data = Some (w', Some e)) \<and>
     ((\<forall>a\<in>set (awaiters w). rejects E (w\<lparr>store := st3\<rparr>) m a) \<and>
      listeners w (read_channel st3 m) = Some (cs1 @ Some c' # cs2) \<and>
      (\<forall>x. Some x \<in> set cs1 \<longrightarrow> quiet E (w\<lparr>store := st3\<rparr>) m x) \<and>
      callback E c'
        (w\<lparr>store := st3, trace := trace w @ map (\<lambda>x. Invoked x m) (set_elems cs1 @ [c'])\<rparr>) m
        = (w', Some e) \<longrightarrow>
        onData E w data = Some (w', Some e))"
proof -
  let ?w3 = "w\<lparr>store := st3\<rparr>"
  from assms have od: "onData E w data = notifyListeners E ?w3 m"
    by (simp add: onData_def)
  show ?thesis
  proof (intro conjI impI)
    show "onData E w data = notifyListeners E ?w3 m" by (rule od)
  next
    assume "n < length (awaiters w) \<and> channel (awaiters w ! n) = read_channel st3 m \<and>
      run_predicate E (predicate (awaiters w ! n)) ?w3 m = (w', Inl e) \<and>
      (\<forall>j<n. rejects E ?w3 m (awaiters w ! j))"
    then have "scan_awaiters E m 0 ?w3 = Some (w', PredicateThrew e)"
      by (intro scan_awaiters_throws [of n]) simp_all
    then show "onData E w data = Some (w', Some e)"
      by (simp add: od notifyListeners_def)
  next
    assume a: "(\<forall>a\<in>set (awaiters w). rejects E ?w3 m a) \<and>
      listeners w (read_channel st3 m) = Some (cs1 @ Some c' # cs2) \<and>
      (\<forall>x. Some x \<in> set cs1 \<longrightarrow> quiet E ?w3 m x) \<and>
      callback E c'
        (w\<lparr>store := st3, trace := trace w @ map (\<lambda>x. Invoked x m) (set_elems cs1 @ [c'])\<rparr>) m
        = (w', Some e)"
    let ?ch = "read_channel st3 m"
    let ?t = "trace w @ map (\<lambda>x. Invoked x m) (set_elems cs1)"
    from a have sc: "scan_awaiters E m 0 ?w3 = Some (?w3, NoMatch)"
      by (intro scan_awaiters_no_match) simp
    from a have l: "listeners ?w3 ?ch = Some ([] @ cs1 @ (Some c' # cs2))" by simp
    from a have q: "\<forall>x. Some x \<in> set cs1 \<longrightarrow> quiet E ?w3 m x" by simp
    from forEach_callback_quiet [OF l q, of "trace w"]
    have "forEach_callback E ?ch m 0 ?w3
        = forEach_callback E ?ch m (length cs1) (w\<lparr>store := st3, trace := ?t\<rparr>)"
      by simp
    also from a have "\<dots> = Some (w', Some e)"
      by (subst forEach_callback.simps) (simp add: nth_append)
    finally show "onData E w data = Some (w', Some e)"
      using sc by (simp add: od notifyListeners_def)
  qed
qed

lemma ex_throwing_eq:
  "ex_throwing_awaiter =
     ex_manager\<lparr>awaiters := [\<lparr>channel = Chan ''pong'', predicate = 1, resolve = 1\<rparr>]\<rparr>"
  "ex_throwing_listener = ex_manager\<lparr>listeners := [Chan ''pong'' \<mapsto> [Some 3, Some 9, Some 4]]\<rparr>"
  by (simp_all add: ex_throwing_awaiter_def ex_throwing_listener_def listen_def awaitMessage_def
      Sendable_channel_def ex_manager_simps ex_protos set_add_def Let_def)

lemma ex_receive_pong:
  "decode ex_env (Some (Chan ''pong''), 5) ex_store = Inr (AString ''pong'', 10, ex_decoded)"
  "entries (fst ex_setup) (Chan ''pong'') = Some (1, ex_accept, ())"
  "json_finalize 10 ex_accept () ex_decoded = Inr (10, ex_decoded)"
  "read_channel (setPrototypeOf ex_decoded 10 k) 10 = Chan ''pong''"
  by (simp_all add: ex_env_simps ex_decode_def ex_decoded_def ex_entries json_finalize_def
      ex_accept_def read_channel_def setPrototypeOf_def)

theorem onData_propagates_notification_errors_witness:
  "onData ex_env ex_throwing_awaiter (Some (Chan ''pong''), 5)
     = Some (ex_throwing_awaiter\<lparr>store := setPrototypeOf ex_decoded 10 1\<rparr>, Some (Thrown 5)) \<and>
   onData ex_env ex_throwing_listener (Some (Chan ''pong''), 5)
     = Some (ex_throwing_listener\<lparr>store := setPrototypeOf ex_decoded 10 1,
                                   trace := [Invoked 3 10, Invoked 9 10]\<rparr>, Some (Thrown 9))"
proof -
  let ?st3 = "setPrototypeOf ex_decoded 10 1"
  let ?d = "(Some (Chan ''pong''), 5 :: int)"
  let ?wa = "ex_throwing_awaiter\<lparr>store := ?st3\<rparr>"
  let ?wl = "ex_throwing_listener\<lparr>store := ?st3\<rparr>"
  have a1: "decode ex_env ?d (store ex_throwing_awaiter) = Inr (AString ''pong'', 10, ex_decoded)"
    and a2: "entries (registry ex_throwing_awaiter) (Chan ''pong'') = Some (1, ex_accept, ())"
    by (simp_all add: ex_throwing_eq ex_manager_simps ex_receive_pong)
  have a3: "finalize ex_env 10 ex_accept () ex_decoded = Inr (10, ex_decoded)"
    by (simp add: ex_env_simps ex_receive_pong)
  have a4: "0 < length (awaiters ex_throwing_awaiter) \<and>
      channel (awaiters ex_throwing_awaiter ! 0) = read_channel ?st3 10 \<and>
      run_predicate ex_env (predicate (awaiters ex_throwing_awaiter ! 0)) ?wa 10
        = (?wa, Inl (Thrown 5)) \<and>
      (\<forall>j<0. rejects ex_env ?wa 10 (awaiters ex_throwing_awaiter ! j))"
    by (simp add: ex_throwing_eq ex_receive_pong ex_env_simps ex_predicate_def)
  have b1: "decode ex_env ?d (store ex_throwing_listener) = Inr (AString ''pong'', 10, ex_decoded)"
    and b2: "entries (registry ex_throwing_listener) (Chan ''pong'') = Some (1, ex_accept, ())"
    by (simp_all add: ex_throwing_eq ex_manager_simps ex_receive_pong)
  have b4: "(\<forall>a\<in>set (awaiters ex_throwing_listener). rejects ex_env ?wl 10 a) \<and>
      listeners ex_throwing_listener (read_channel ?st3 10) = Some ([Some 3] @ Some 9 # [Some 4]) \<and>
      (\<forall>x. Some x \<in> set [Some 3] \<longrightarrow> quiet ex_env ?wl 10 x) \<and>
      callback ex_env 9
        (ex_throwing_listener\<lparr>store := ?st3,
           trace := trace ex_throwing_listener @
                    map (\<lambda>x. Invoked x 10) (set_elems [Some 3] @ [9])\<rparr>) 10
        = (ex_throwing_listener\<lparr>store := ?st3, trace := [Invoked 3 10, Invoked 9 10]\<rparr>,
           Some (Thrown 9))"
    by (simp add: ex_throwing_eq ex_manager_simps ex_receive_pong ex_env_simps ex_callback_def
        quiet_def)
  note T = onData_propagates_notification_errors
  from T [OF a1 a2 a3 refl, THEN conjunct2, THEN conjunct1, THEN mp, OF a4]
  have 1: "onData ex_env ex_throwing_awaiter ?d = Some (?wa, Some (Thrown 5))" .
  from T [OF b1 b2 a3 refl, THEN conjunct2, THEN conjunct2, THEN mp, OF b4]
  have 2: "onData ex_env ex_throwing_listener ?d
     = Some (ex_throwing_listener\<lparr>store := ?st3, trace := [Invoked 3 10, Invoked 9 10]\<rparr>,
             Some (Thrown 9))" .
  from 1 2 show ?thesis by simp
qed

text \<open>
  When \<^verbatim>\<open>finalize\<close> returns the intermediate value itself, as the JSON implementation
  does, the object notified is the one whose prototype was set to the registered class.
\<close>

lemma onData_retags_when_finalize_returns_its_argument:
  assumes "decode E data (store w) = Inr (AString c, i, st1)"
    and "entries (registry w) (Chan c) = Some (k, v, cd)"
    and "finalize E i v cd st1 = Inr (i, st2)"
  shows "onData E w data = notifyListeners E (w\<lparr>store := setPrototypeOf st2 i k\<rparr>) i \<and>
         proto (objs (setPrototypeOf st2 i k) i) = Some k"
  using assms by (simp add: onData_def setPrototypeOf_def)

lemma ex_subscribed_eq: "ex_subscribed = ex_manager\<lparr>listeners := [Chan ''pong'' \<mapsto> [Some 3]]\<rparr>"
  by (simp add: ex_subscribed_def listen_def Sendable_channel_def ex_manager_simps ex_protos
      set_add_def Let_def)

lemma ex_subscribed_simps:
  "registry ex_subscribed = fst ex_setup" "store ex_subscribed = ex_store"
  "trace ex_subscribed = []" "awaiters ex_subscribed = []"
  "listeners ex_subscribed = [Chan ''pong'' \<mapsto> [Some 3]]"
  by (simp_all add: ex_subscribed_eq ex_manager_simps)

text \<open>
  C5. The claim is that the value handed to the notification always has the registered
  class as its prototype. \<^verbatim>\<open>onData\<close> sets the prototype of \<open>intermediate\<close> and
  notifies \<open>decoded\<close>, the result of \<^verbatim>\<open>finalize\<close>. With a \<^verbatim>\<open>finalize\<close> that returns a
  new object, the listener is called with the new object (address 11), whose prototype
  was not set, while the discarded intermediate value (address 10) received the class.
\<close>

theorem onData_retags_intermediate_not_finalized:
  "onData ex_env_copying ex_subscribed (Some (Chan ''pong''), 5)
     = Some (ex_subscribed\<lparr>store := ex_copied, trace := [Invoked 3 11]\<rparr>, None) \<and>
   proto (objs ex_copied 11) = None \<and>
   proto (objs ex_copied 10) = Some 1"
proof -
  let ?w = "ex_subscribed\<lparr>store := ex_copied\<rparr>"
  have d: "decode ex_env_copying (Some (Chan ''pong''), 5) ex_store
             = Inr (AString ''pong'', 10, ex_decoded)"
    using ex_receive_pong(1) by (simp add: ex_env_copying_def)
  have f: "finalize ex_env_copying 10 ex_accept () ex_decoded
      = Inr (11, ex_decoded\<lparr>objs := (objs ex_decoded)(11 := (objs ex_decoded 10)\<lparr>proto := None\<rparr>)\<rparr>)"
    by (simp add: ex_env_copying_def ex_env_def ex_receive_pong)
  have rc: "read_channel ex_copied 11 = Chan ''pong''"
    by (simp add: ex_copied_def read_channel_def setPrototypeOf_def ex_decoded_def)
  have od: "onData ex_env_copying ex_subscribed (Some (Chan ''pong''), 5)
          = notifyListeners ex_env_copying ?w 11"
    by (simp add: onData_def d f ex_subscribed_simps ex_receive_pong ex_copied_def)
  have sc: "scan_awaiters ex_env_copying 11 0 ?w = Some (?w, NoMatch)"
    by (subst scan_awaiters.simps) (simp add: ex_subscribed_simps)
  have fe: "forEach_callback ex_env_copying (Chan ''pong'') 11 0 ?w
      = Some (ex_subscribed\<lparr>store := ex_copied, trace := [Invoked 3 11]\<rparr>, None)"
    by (simp add: forEach_callback.simps ex_subscribed_simps ex_env_copying_def ex_env_def
        ex_callback_def)
  from od sc fe rc show ?thesis
    by (simp add: notifyListeners_def ex_copied_def setPrototypeOf_def ex_decoded_def)
qed

subsection \<open>Sending\<close>

text \<open>
  C4. \<^verbatim>\<open>send\<close> of a message whose channel has no entry in the registry throws
  synchronously, whether the manager is ready or not; nothing else happens: the world is
  the one before the call, so nothing is transmitted and nothing is queued.
\<close>

theorem send_unregistered_throws:
  "\<not> entries_has (registry w) (read_channel (store w) m)
     \<Longrightarrow> send E w m = (w, Some NotRegisteredError)"
  by (simp add: send_def)

lemma ex_read4: "read_channel ex_store 4 = Chan ''nope''"
  by (simp add: read_channel_def ex_store_def Let_def new_instance_def)

theorem send_unregistered_throws_witness:
  "send ex_env ex_manager 4 = (ex_manager, Some NotRegisteredError) \<and>
   send ex_env (ex_manager\<lparr>isReady := True\<rparr>) 4 = (ex_manager\<lparr>isReady := True\<rparr>, Some NotRegisteredError)"
  using send_unregistered_throws [of ex_manager 4 ex_env]
    send_unregistered_throws [of "ex_manager\<lparr>isReady := True\<rparr>" 4 ex_env]
  by (simp add: ex_manager_def new_manager_def ex_read4 entries_has_def ex_entries)

lemma proto_channel_stamp [simp]: "proto_channel (stamp st v) m = proto_channel st m"
  by (simp add: proto_channel_def stamp_def split: option.splits)

lemma read_channel_stamp:
  "read_channel (stamp st v) m = (if m = v then proto_channel st v else read_channel st m)"
  using proto_channel_stamp [of st v m]
  by (simp add: read_channel_def stamp_def split: option.splits)

lemma as_sent_stamp [simp]: "as_sent (stamp st v) m = as_sent st m"
  using proto_channel_stamp [of st v m] by (simp add: as_sent_def stamp_def)

lemma objs_stamp_same: "objs (stamp st m) m = as_sent st m"
  by (simp add: as_sent_def stamp_def)

lemma send_not_ready:
  "\<not> isReady w \<Longrightarrow> entries_has (registry w) (read_channel (store w) m)
     \<Longrightarrow> send E w m = (w\<lparr>queue := queue w @ [m]\<rparr>, None)"
  by (simp add: send_def)

lemma send_ready_encoded:
  "isReady w \<Longrightarrow> entries_has (registry w) (read_channel (store w) m)
     \<Longrightarrow> encode E (as_sent (store w) m) = Inr x
     \<Longrightarrow> send E w m
         = (w\<lparr>store := stamp (store w) m,
              trace := trace w @ [EncodeCall (as_sent (store w) m), Transmit x]\<rparr>,
            transmit E x)"
  by (simp add: send_def Let_def objs_stamp_same)

lemma send_ready_encode_throws:
  "isReady w \<Longrightarrow> entries_has (registry w) (read_channel (store w) m)
     \<Longrightarrow> encode E (as_sent (store w) m) = Inl e
     \<Longrightarrow> send E w m
         = (w\<lparr>store := stamp (store w) m,
              trace := trace w @ [EncodeCall (as_sent (store w) m)]\<rparr>, Some (EncodeError e))"
  by (simp add: send_def Let_def objs_stamp_same)

lemma sends_not_ready:
  "\<not> isReady w \<Longrightarrow> \<forall>m\<in>set ms. entries_has (registry w) (read_channel (store w) m)
     \<Longrightarrow> sends E w ms = (w\<lparr>queue := queue w @ ms\<rparr>, None)"
proof (induction ms arbitrary: w)
  case Nil
  then show ?case by simp
next
  case (Cons m ms)
  then have "send E w m = (w\<lparr>queue := queue w @ [m]\<rparr>, None)"
    by (simp add: send_not_ready)
  moreover from Cons.prems
  have "sends E (w\<lparr>queue := queue w @ [m]\<rparr>) ms
          = (w\<lparr>queue := queue w @ [m]\<rparr>\<lparr>queue := queue (w\<lparr>queue := queue w @ [m]\<rparr>) @ ms\<rparr>, None)"
    by (intro Cons.IH) simp_all
  ultimately show ?case by simp
qed

lemma transmitted_append [simp]: "transmitted (xs @ ys) = transmitted xs @ transmitted ys"
  by (induction xs rule: transmitted.induct) simp_all

text \<open>The drain of a ready manager, when every check passes and every encoding succeeds.\<close>

lemma forEach_send_ready:
  "isReady w
   \<Longrightarrow> \<forall>m\<in>set vs. entries_has (registry w) (read_channel (store w) m) \<and>
          (1 < count_list vs m \<longrightarrow> entries_has (registry w) (proto_channel (store w) m))
   \<Longrightarrow> \<forall>m\<in>set vs. encode E (as_sent (store w) m) = Inr (enc m) \<and> transmit E (enc m) = None
   \<Longrightarrow> forEach_send E w vs
       = (w\<lparr>store := fold (\<lambda>m st. stamp st m) vs (store w),
            trace := trace w @
              concat (map (\<lambda>m. [EncodeCall (as_sent (store w) m), Transmit (enc m)]) vs)\<rparr>, None)"
proof (induction vs arbitrary: w)
  case Nil
  then show ?case by simp
next
  case (Cons v vs)
  let ?w1 = "w\<lparr>store := stamp (store w) v,
               trace := trace w @ [EncodeCall (as_sent (store w) v), Transmit (enc v)]\<rparr>"
  from Cons.prems have s: "send E w v = (?w1, None)"
    by (simp add: send_ready_encoded)
  have reg: "\<forall>m\<in>set vs. entries_has (registry ?w1) (read_channel (store ?w1) m) \<and>
          (1 < count_list vs m \<longrightarrow> entries_has (registry ?w1) (proto_channel (store ?w1) m))"
  proof
    fix m assume m: "m \<in> set vs"
    show "entries_has (registry ?w1) (read_channel (store ?w1) m) \<and>
          (1 < count_list vs m \<longrightarrow> entries_has (registry ?w1) (proto_channel (store ?w1) m))"
    proof (cases "m = v")
      case True
      from m True have "count_list vs v \<noteq> 0" by (simp add: count_list_0_iff)
      then have "0 < count_list vs v" by simp
      then have "1 < count_list (v # vs) v" by simp
      with Cons.prems(2) have "entries_has (registry w) (proto_channel (store w) v)" by simp
      with True show ?thesis by (simp add: read_channel_stamp)
    next
      case False
      with m Cons.prems(2) show ?thesis by (simp add: read_channel_stamp)
    qed
  qed
  have enc: "\<forall>m\<in>set vs. encode E (as_sent (store ?w1) m) = Inr (enc m) \<and>
                       transmit E (enc m) = None"
    using Cons.prems(3) by simp
  from Cons.prems(1) have "isReady ?w1" by simp
  from Cons.IH [OF this reg enc] s show ?case by simp
qed

lemma forEach_send_append:
  "forEach_send E w (xs @ ys)
     = (case forEach_send E w xs of
          (w', Some e) \<Rightarrow> (w', Some e)
        | (w', None) \<Rightarrow> forEach_send E w' ys)"
  by (induction xs arbitrary: w) (simp_all split: prod.splits option.splits)

lemma send_ready_keeps:
  "isReady w \<Longrightarrow> isReady (fst (send E w m)) \<and> queue (fst (send E w m)) = queue w"
  by (simp add: send_def Let_def split: sum.splits)

lemma send_ready_transmits_once:
  "isReady w \<Longrightarrow> send E w m = (w', None)
     \<Longrightarrow> length (transmitted (trace w')) = Suc (length (transmitted (trace w)))"
  by (auto simp: send_def Let_def split: sum.splits if_splits)

lemma forEach_send_keeps:
  "isReady w \<Longrightarrow> isReady (fst (forEach_send E w vs)) \<and> queue (fst (forEach_send E w vs)) = queue w"
proof (induction vs arbitrary: w)
  case Nil
  then show ?case by simp
next
  case (Cons v vs)
  from Cons.prems have k: "isReady (fst (send E w v)) \<and> queue (fst (send E w v)) = queue w"
    by (rule send_ready_keeps)
  show ?case
  proof (cases "send E w v")
    case (Pair w' r)
    with k have w': "isReady w'" "queue w' = queue w" by simp_all
    show ?thesis
    proof (cases r)
      case None
      with Pair w' Cons.IH [of w'] show ?thesis by simp
    next
      case (Some e)
      with Pair w' show ?thesis by simp
    qed
  qed
qed

lemma forEach_send_transmits_each:
  "isReady w \<Longrightarrow> forEach_send E w vs = (w', None)
     \<Longrightarrow> length (transmitted (trace w')) = length (transmitted (trace w)) + length vs"
proof (induction vs arbitrary: w)
  case Nil
  then show ?case by simp
next
  case (Cons v vs)
  obtain w1 r where s: "send E w v = (w1, r)" by (cases "send E w v")
  with Cons.prems(2) have r: "r = None" by (cases r) simp_all
  with s Cons.prems(2) have rest: "forEach_send E w1 vs = (w', None)" by simp
  from send_ready_keeps [OF Cons.prems(1), of E v] s have "isReady w1" by simp
  from Cons.IH [OF this rest] send_ready_transmits_once [OF Cons.prems(1)] s r
  show ?case by simp
qed

lemma transmitted_encode_transmit:
  "transmitted (concat (map (\<lambda>m. [EncodeCall (f m), Transmit (g m)]) xs)) = map g xs"
  by (induction xs) simp_all

lemma ex_channels:
  "proto_channel ex_store 7 = Chan ''ping''" "proto_channel ex_store 2 = Chan ''pong''"
  "proto_channel ex_store 3 = Chan ''pong''" "proto_channel ex_store 5 = Chan ''pong''"
  "read_channel ex_store 7 = Chan ''ping''" "read_channel ex_store 2 = Chan ''pong''"
  "read_channel ex_store 3 = Chan ''pong''" "read_channel ex_store 5 = Chan ''ping''"
  "proto_channel ex_store 8 = Undefined" "read_channel ex_store 8 = Chan ''ping''"
  by (simp_all add: read_channel_def proto_channel_def ex_objs ex_protos)

lemma ex_as_sent:
  "as_sent ex_store 7 = \<lparr>own_channel = Some (Chan ''ping''), proto = Some 0, payload = 0\<rparr>"
  "as_sent ex_store 2 = \<lparr>own_channel = Some (Chan ''pong''), proto = Some 1, payload = 5\<rparr>"
  "as_sent ex_store 3 = \<lparr>own_channel = Some (Chan ''pong''), proto = Some 1, payload = - 1\<rparr>"
  "as_sent ex_store 5 = \<lparr>own_channel = Some (Chan ''pong''), proto = Some 1, payload = 8\<rparr>"
  "as_sent ex_store 8 = \<lparr>own_channel = Some Undefined, proto = None, payload = 1\<rparr>"
  by (simp_all add: as_sent_def ex_channels ex_objs)

lemma ex_has: "entries_has (fst ex_setup) (Chan ''ping'')" "entries_has (fst ex_setup) (Chan ''pong'')"
  by (simp_all add: entries_has_def ex_entries)

text \<open>
  C6. For a message of a class with a registered channel \<open>c\<close>, sent while the manager
  is ready: whenever \<^verbatim>\<open>encode\<close> is called, the object it is given has \<open>c\<close> as its
  own \<^verbatim>\<open>channel\<close>, the channel of its prototype, whatever own \<^verbatim>\<open>channel\<close> the
  instance carried before; and \<^verbatim>\<open>encode\<close> is called as soon as the registry check,
  which reads the channel as it was before the call, passes.
\<close>

theorem send_stamps_channel_before_encode:
  assumes "isReady w"
    and "proto (objs (store w) m) = Some k"
    and "protos (store w) k = Chan c"
  shows "(\<forall>ob. EncodeCall ob \<in> set (emitted w (fst (send E w m))) \<longrightarrow>
            own_channel ob = Some (Chan c)) \<and>
         (entries_has (registry w) (read_channel (store w) m) \<longrightarrow>
            EncodeCall ((objs (store w) m)\<lparr>own_channel := Some (Chan c)\<rparr>)
              \<in> set (emitted w (fst (send E w m))))"
proof -
  from assms(2,3) have pc: "proto_channel (store w) m = Chan c"
    by (simp add: proto_channel_def)
  then have as: "as_sent (store w) m = (objs (store w) m)\<lparr>own_channel := Some (Chan c)\<rparr>"
    by (simp add: as_sent_def)
  show ?thesis
  proof (cases "entries_has (registry w) (read_channel (store w) m)")
    case False
    then show ?thesis by (simp add: send_def emitted_def)
  next
    case True
    show ?thesis
    proof (cases "encode E (as_sent (store w) m)")
      case (Inl e)
      with True assms(1) as show ?thesis
        by (simp add: send_ready_encode_throws emitted_def)
    next
      case (Inr x)
      with True assms(1) as show ?thesis
        by (simp add: send_ready_encoded emitted_def)
    qed
  qed
qed

theorem send_stamps_channel_before_encode_witness:
  "own_channel (objs (store (ex_manager\<lparr>isReady := True\<rparr>)) 5) = Some (Chan ''ping'') \<and>
   EncodeCall \<lparr>own_channel = Some (Chan ''pong''), proto = Some 1, payload = 8\<rparr>
     \<in> set (emitted (ex_manager\<lparr>isReady := True\<rparr>)
                (fst (send ex_env (ex_manager\<lparr>isReady := True\<rparr>) 5))) \<and>
   EncodeCall \<lparr>own_channel = Some (Chan ''ping''), proto = Some 1, payload = 8\<rparr>
     \<notin> set (emitted (ex_manager\<lparr>isReady := True\<rparr>)
                (fst (send ex_env (ex_manager\<lparr>isReady := True\<rparr>) 5)))"
proof -
  let ?w = "ex_manager\<lparr>isReady := True\<rparr>"
  have h1: "isReady ?w" by simp
  have h2: "proto (objs (store ?w) 5) = Some 1"
    by (simp add: ex_manager_simps ex_objs)
  have h3: "protos (store ?w) 1 = Chan ''pong''"
    by (simp add: ex_manager_simps ex_protos)
  have h4: "entries_has (registry ?w) (read_channel (store ?w) 5)"
    by (simp add: ex_manager_simps ex_channels ex_has)
  have o: "objs (store ?w) 5 = \<lparr>own_channel = Some (Chan ''ping''), proto = Some 1, payload = 8\<rparr>"
    by (simp add: ex_manager_simps ex_objs)
  note T = send_stamps_channel_before_encode [OF h1 h2 h3, of ex_env]
  from T [THEN conjunct1, THEN spec,
      of "\<lparr>own_channel = Some (Chan ''ping''), proto = Some 1, payload = 8\<rparr>"]
  have "EncodeCall \<lparr>own_channel = Some (Chan ''ping''), proto = Some 1, payload = 8\<rparr>
     \<notin> set (emitted ?w (fst (send ex_env ?w 5)))"
    by auto
  with T [THEN conjunct2, THEN mp, OF h4] o
  show ?thesis by simp
qed

lemma ex_queued_twice:
  "sends ex_env ex_manager [8, 8] = (ex_manager\<lparr>queue := [8, 8]\<rparr>, None)"
  "ready ex_env (ex_manager\<lparr>queue := [8, 8]\<rparr>)
     = (ex_manager\<lparr>queue := [8, 8], isReady := True, store := stamp ex_store 8,
                    trace := [EncodeCall (as_sent ex_store 8), Transmit (Some Undefined, 1)]\<rparr>,
        Some NotRegisteredError)"
  by (simp_all add: ready_def send_def Let_def objs_stamp_same read_channel_stamp
      ex_manager_simps ex_channels ex_has ex_env_simps ex_encode_def ex_as_sent entries_has_def
      ex_entries)

text \<open>
  C2, as stated, fails. \<^verbatim>\<open>send\<close> checks the registry again when the queue is drained,
  and by then the first occurrence of a message object has been stamped with the channel
  of its prototype. The plain object \<^verbatim>\<open>{channel: "ping"}\<close> has a registered channel;
  sent twice before \<^verbatim>\<open>ready\<close>, it is transmitted once (with the channel \<open>undefined\<close>),
  then \<^verbatim>\<open>ready\<close> throws and the queue stays as it was.
\<close>

theorem ready_rejects_restamped_message:
  "\<not> isReady ex_manager \<and>
   entries_has (registry ex_manager) (read_channel (store ex_manager) 8) \<and>
   sends ex_env ex_manager [8, 8] = (ex_manager\<lparr>queue := [8, 8]\<rparr>, None) \<and>
   snd (ready ex_env (fst (sends ex_env ex_manager [8, 8]))) = Some NotRegisteredError \<and>
   transmitted (trace (fst (ready ex_env (fst (sends ex_env ex_manager [8, 8])))))
     = [(Some Undefined, 1)] \<and>
   queue (fst (ready ex_env (fst (sends ex_env ex_manager [8, 8])))) = [8, 8]"
  unfolding ex_queued_twice fst_conv snd_conv
  by (simp add: ex_manager_simps ex_channels ex_has)

text \<open>
  C2, amended. Messages sent while the manager is not ready are queued and nothing is
  transmitted; \<^verbatim>\<open>ready\<close> then encodes and transmits each of them once, in the order
  of the calls, and leaves the queue empty and the manager ready, provided that: every
  message has a registered channel; a message object that occurs more than once in the
  sequence is an instance of a class whose channel is registered; \<^verbatim>\<open>encode\<close> and
  \<^verbatim>\<open>transmit\<close> return for each message (\<open>enc m\<close> is the encoded form of \<open>m\<close>). A
  queue that is not empty at the start is drained first.
\<close>

theorem queued_sends_are_transmitted_in_order:
  assumes "\<not> isReady w"
    and "\<forall>m\<in>set (queue w @ ms).
           entries_has (registry w) (read_channel (store w) m) \<and>
           (1 < count_list (queue w @ ms) m \<longrightarrow>
              entries_has (registry w) (proto_channel (store w) m))"
    and "\<forall>m\<in>set (queue w @ ms).
           encode E (as_sent (store w) m) = Inr (enc m) \<and> transmit E (enc m) = None"
  shows "sends E w ms = (w\<lparr>queue := queue w @ ms\<rparr>, None) \<and>
         snd (ready E (fst (sends E w ms))) = None \<and>
         emitted w (fst (ready E (fst (sends E w ms))))
           = concat (map (\<lambda>m. [EncodeCall (as_sent (store w) m), Transmit (enc m)])
                         (queue w @ ms)) \<and>
         transmitted (emitted w (fst (ready E (fst (sends E w ms))))) = map enc (queue w @ ms) \<and>
         queue (fst (ready E (fst (sends E w ms)))) = [] \<and>
         isReady (fst (ready E (fst (sends E w ms))))"
proof -
  let ?q = "queue w @ ms"
  let ?evs = "concat (map (\<lambda>m. [EncodeCall (as_sent (store w) m), Transmit (enc m)]) ?q)"
  let ?w1 = "w\<lparr>queue := ?q\<rparr>"
  from assms(1,2) have s: "sends E w ms = (?w1, None)"
    by (intro sends_not_ready) simp_all
  have "forEach_send E (?w1\<lparr>isReady := True\<rparr>) ?q
          = (?w1\<lparr>isReady := True\<rparr>
               \<lparr>store := fold (\<lambda>m st. stamp st m) ?q (store (?w1\<lparr>isReady := True\<rparr>)),
                trace := trace (?w1\<lparr>isReady := True\<rparr>) @
                  concat (map (\<lambda>m. [EncodeCall (as_sent (store (?w1\<lparr>isReady := True\<rparr>)) m),
                                     Transmit (enc m)]) ?q)\<rparr>, None)"
    using assms(2,3) by (intro forEach_send_ready) simp_all
  then have r: "ready E ?w1
      = (w\<lparr>isReady := True, store := fold (\<lambda>m st. stamp st m) ?q (store w),
           trace := trace w @ ?evs, queue := []\<rparr>, None)"
    by (simp add: ready_def)
  have t: "transmitted ?evs = map enc ?q"
    by (rule transmitted_encode_transmit)
  from s r t show ?thesis by (simp add: emitted_def)
qed

theorem queued_sends_are_transmitted_in_order_witness:
  "\<not> isReady ex_manager \<and>
   sends ex_env ex_manager [7, 2, 7] = (ex_manager\<lparr>queue := [7, 2, 7]\<rparr>, None) \<and>
   snd (ready ex_env (ex_manager\<lparr>queue := [7, 2, 7]\<rparr>)) = None \<and>
   transmitted (emitted ex_manager (fst (ready ex_env (ex_manager\<lparr>queue := [7, 2, 7]\<rparr>))))
     = [(Some (Chan ''ping''), 0), (Some (Chan ''pong''), 5), (Some (Chan ''ping''), 0)] \<and>
   queue (fst (ready ex_env (ex_manager\<lparr>queue := [7, 2, 7]\<rparr>))) = []"
proof -
  let ?enc = "\<lambda>m. (Some (proto_channel ex_store m), payload (objs ex_store m))"
  have h1: "\<not> isReady ex_manager"
    by (simp add: ex_manager_simps)
  have h2: "\<forall>m\<in>set (queue ex_manager @ [7, 2, 7]).
           entries_has (registry ex_manager) (read_channel (store ex_manager) m) \<and>
           (1 < count_list (queue ex_manager @ [7, 2, 7]) m \<longrightarrow>
              entries_has (registry ex_manager) (proto_channel (store ex_manager) m))"
    by (simp add: ex_manager_simps ex_channels ex_has)
  have h3: "\<forall>m\<in>set (queue ex_manager @ [7, 2, 7]).
           encode ex_env (as_sent (store ex_manager) m) = Inr (?enc m) \<and>
           transmit ex_env (?enc m) = None"
    by (simp add: ex_manager_simps ex_env_simps ex_encode_def ex_as_sent ex_channels ex_objs)
  note T = queued_sends_are_transmitted_in_order [OF h1 h2 h3]
  from T have s: "sends ex_env ex_manager [7, 2, 7] = (ex_manager\<lparr>queue := [7, 2, 7]\<rparr>, None)"
    by (simp add: ex_manager_simps del: sends.simps)
  from T h1 show ?thesis
    unfolding s by (simp add: ex_manager_simps ex_channels ex_objs del: sends.simps)
qed

text \<open>
  C10. When, in the drain of \<^verbatim>\<open>ready\<close>, the messages before \<open>m\<close> have been sent and
  \<^verbatim>\<open>encode\<close> throws on \<open>m\<close>, \<^verbatim>\<open>ready\<close> throws the encoding error; the call of
  \<^verbatim>\<open>encode\<close> is the last event, so only the messages before \<open>m\<close> have been
  transmitted, one transmission each; the manager is ready and its queue is the whole
  queue it had, so the messages after \<open>m\<close> are still queued.
\<close>

theorem ready_stops_at_encode_failure:
  assumes "queue w = pre @ m # post"
    and "forEach_send E (w\<lparr>isReady := True\<rparr>) pre = (w1, None)"
    and "entries_has (registry w1) (read_channel (store w1) m)"
    and "encode E (as_sent (store w1) m) = Inl e"
  shows "ready E w
           = (w1\<lparr>store := stamp (store w1) m,
                 trace := trace w1 @ [EncodeCall (as_sent (store w1) m)]\<rparr>,
              Some (EncodeError e)) \<and>
         isReady (fst (ready E w)) \<and>
         queue (fst (ready E w)) = queue w \<and>
         transmitted (trace (fst (ready E w))) = transmitted (trace w1) \<and>
         length (transmitted (trace (fst (ready E w))))
           = length (transmitted (trace w)) + length pre"
proof -
  let ?w0 = "w\<lparr>isReady := True\<rparr>"
  let ?w2 = "w1\<lparr>store := stamp (store w1) m,
                 trace := trace w1 @ [EncodeCall (as_sent (store w1) m)]\<rparr>"
  from forEach_send_keeps [of ?w0 E pre] assms(2)
  have k: "isReady w1" "queue w1 = queue w" by simp_all
  from k(1) assms(3,4) have "send E w1 m = (?w2, Some (EncodeError e))"
    by (rule send_ready_encode_throws)
  with assms(2) have "forEach_send E ?w0 (pre @ m # post) = (?w2, Some (EncodeError e))"
    by (simp add: forEach_send_append)
  with assms(1) have r: "ready E w = (?w2, Some (EncodeError e))"
    by (simp add: ready_def)
  from forEach_send_transmits_each [of ?w0 E pre w1] assms(2)
  have "length (transmitted (trace w1)) = length (transmitted (trace w)) + length pre"
    by simp
  with r k show ?thesis by simp
qed

theorem ready_stops_at_encode_failure_witness:
  "snd (ready ex_env (ex_manager\<lparr>queue := [2, 3, 7]\<rparr>)) = Some (EncodeError (Thrown 1)) \<and>
   isReady (fst (ready ex_env (ex_manager\<lparr>queue := [2, 3, 7]\<rparr>))) \<and>
   queue (fst (ready ex_env (ex_manager\<lparr>queue := [2, 3, 7]\<rparr>))) = [2, 3, 7] \<and>
   transmitted (trace (fst (ready ex_env (ex_manager\<lparr>queue := [2, 3, 7]\<rparr>))))
     = [(Some (Chan ''pong''), 5)]"
proof -
  let ?w = "ex_manager\<lparr>queue := [2, 3, 7]\<rparr>"
  let ?w1 = "?w\<lparr>isReady := True, store := stamp ex_store 2,
               trace := [EncodeCall (as_sent ex_store 2), Transmit (Some (Chan ''pong''), 5)]\<rparr>"
  have h1: "queue ?w = [2] @ 3 # [7]" by simp
  have "send ex_env (?w\<lparr>isReady := True\<rparr>) 2 = (?w1, None)"
    by (simp add: send_def Let_def objs_stamp_same ex_manager_simps ex_channels ex_has
        ex_env_simps ex_encode_def ex_as_sent)
  then have h2: "forEach_send ex_env (?w\<lparr>isReady := True\<rparr>) [2] = (?w1, None)"
    by simp
  have h3: "entries_has (registry ?w1) (read_channel (store ?w1) 3)"
    by (simp add: ex_manager_simps read_channel_stamp ex_channels ex_has)
  have h4: "encode ex_env (as_sent (store ?w1) 3) = Inl (Thrown 1)"
    by (simp add: ex_env_simps ex_encode_def ex_as_sent)
  from ready_stops_at_encode_failure [OF h1 h2 h3 h4]
  show ?thesis by simp
qed

lemma ex_queued_eq: "ex_queued = ex_manager\<lparr>queue := [2, 3]\<rparr>"
  by (simp add: ex_queued_def send_def ex_manager_simps ex_channels ex_has)

lemma ex_once_eq:
  "ex_once =
     ex_manager\<lparr>queue := [2, 3], isReady := True, store := stamp (stamp ex_store 2) 3,
                trace := [EncodeCall (as_sent ex_store 2), Transmit (Some (Chan ''pong''), 5),
                          EncodeCall (as_sent ex_store 3)]\<rparr>"
  by (simp add: ex_once_def ex_queued_eq ready_def send_def Let_def objs_stamp_same
      read_channel_stamp ex_manager_simps ex_channels ex_has ex_env_simps ex_encode_def
      ex_as_sent)

lemma ex_twice_eq:
  "ex_twice =
     ex_once\<lparr>store := stamp (stamp (stamp (stamp ex_store 2) 3) 2) 3,
             trace := trace ex_once @
               [EncodeCall (as_sent ex_store 2), Transmit (Some (Chan ''pong''), 5),
                EncodeCall (as_sent ex_store 3)]\<rparr>"
  by (simp add: ex_twice_def ex_once_eq ready_def send_def Let_def objs_stamp_same
      read_channel_stamp ex_manager_simps ex_channels ex_has ex_env_simps ex_encode_def
      ex_as_sent)

text \<open>
  C7, as stated, fails: \<^verbatim>\<open>ready\<close> has no guard on \<open>isReady\<close>, and a call of
  \<^verbatim>\<open>ready\<close> that threw in the drain (C10) leaves a ready manager with its queue. A
  second call drains that queue again: below, the first call transmits one message and
  throws, and the second call transmits the same message once more.
\<close>

theorem ready_again_retransmits:
  "isReady ex_once \<and>
   transmitted (trace ex_once) = [(Some (Chan ''pong''), 5)] \<and>
   transmitted (trace (fst (ready ex_env ex_once)))
     = [(Some (Chan ''pong''), 5), (Some (Chan ''pong''), 5)] \<and>
   fst (ready ex_env ex_once) \<noteq> ex_once"
proof -
  have 1: "isReady ex_once" and 2: "transmitted (trace ex_once) = [(Some (Chan ''pong''), 5)]"
    by (simp_all add: ex_once_eq)
  have 3: "transmitted (trace ex_twice) = [(Some (Chan ''pong''), 5), (Some (Chan ''pong''), 5)]"
    by (simp add: ex_twice_eq 2)
  from 2 3 have "trace ex_twice \<noteq> trace ex_once" by auto
  then have "ex_twice \<noteq> ex_once" by auto
  with 1 2 3 show ?thesis by (simp add: ex_twice_def)
qed

text \<open>
  C7, amended. \<^verbatim>\<open>ready\<close> on a manager that is ready and whose queue is empty changes
  nothing and transmits nothing; every call of \<^verbatim>\<open>ready\<close> that returns normally leaves
  such a manager, so after it a second call changes nothing and transmits nothing.
\<close>

theorem ready_again_is_noop_when_queue_empty:
  "(isReady w \<and> queue w = [] \<longrightarrow> ready E w = (w, None)) \<and>
   (snd (ready E w) = None \<longrightarrow>
      isReady (fst (ready E w)) \<and> queue (fst (ready E w)) = [] \<and>
      ready E (fst (ready E w)) = (fst (ready E w), None))"
proof -
  have a: "ready E v = (v, None)" if "isReady v" "queue v = []" for v :: "('a, 'b, 'c, 'd) world"
    using that by (simp add: ready_def)
  have b: "isReady (fst (ready E w)) \<and> queue (fst (ready E w)) = []" if "snd (ready E w) = None"
    using that forEach_send_keeps [of "w\<lparr>isReady := True\<rparr>" E "queue w"]
    by (auto simp: ready_def split: prod.splits option.splits)
  from a b show ?thesis by blast
qed

theorem ready_again_is_noop_when_queue_empty_witness:
  "isReady (ex_manager\<lparr>isReady := True\<rparr>) \<and> queue (ex_manager\<lparr>isReady := True\<rparr>) = [] \<and>
   ready ex_env (ex_manager\<lparr>isReady := True\<rparr>) = (ex_manager\<lparr>isReady := True\<rparr>, None) \<and>
   snd (ready ex_env (ex_manager\<lparr>queue := [2]\<rparr>)) = None \<and>
   transmitted (trace (fst (ready ex_env (ex_manager\<lparr>queue := [2]\<rparr>))))
     = [(Some (Chan ''pong''), 5)] \<and>
   ready ex_env (fst (ready ex_env (ex_manager\<lparr>queue := [2]\<rparr>)))
     = (fst (ready ex_env (ex_manager\<lparr>queue := [2]\<rparr>)), None)"
proof -
  let ?w = "ex_manager\<lparr>queue := [2]\<rparr>"
  have a: "isReady (ex_manager\<lparr>isReady := True\<rparr>) \<and> queue (ex_manager\<lparr>isReady := True\<rparr>) = []"
    by (simp add: ex_manager_simps)
  have r: "ready ex_env ?w
      = (ex_manager\<lparr>queue := [], isReady := True, store := stamp ex_store 2,
                     trace := [EncodeCall (as_sent ex_store 2), Transmit (Some (Chan ''pong''), 5)]\<rparr>,
         None)"
    by (simp add: ready_def send_def Let_def objs_stamp_same ex_manager_simps ex_channels ex_has
        ex_env_simps ex_encode_def ex_as_sent)
  then have b: "snd (ready ex_env ?w) = None" by simp
  note T = ready_again_is_noop_when_queue_empty
  from T [THEN conjunct1, THEN mp, OF a] T [THEN conjunct2, THEN mp, OF b] a b r
  show ?thesis by simp
qed

end
